theory Spec2Isabelle
  imports Main
begin

section \<open>The schema compiler of \<^verbatim>\<open>src/lib/utils.ts\<close>\<close>

text \<open>
  The development embeds three functions of \<^verbatim>\<open>src/lib/utils.ts\<close>:
  \<^verbatim>\<open>validatedFieldName\<close> (the field-name sanitizer), \<^verbatim>\<open>parseSqlSchemaFromObject\<close>
  (the recursive type mapper with the mapping overlay) and \<^verbatim>\<open>readSqlSchemaFromJson\<close>
  (the assembler that unwraps the outer \<^verbatim>\<open>struct<...>\<close>).

  Conventions of the embedding.
  \<^item> A JavaScript string is a \<^typ>\<open>string\<close>: a list of code units below 256. Code units
    from 256 on are not represented.
  \<^item> A thrown exception is the \<open>Inl\<close> of a sum; the value returned is the \<open>Inr\<close>.
  \<^item> \<^verbatim>\<open>undefined\<close> is \<open>None\<close> of an option type.
\<close>

subsection \<open>Strings\<close>

text \<open>
  \<^verbatim>\<open>String.prototype.toLowerCase\<close> on one code unit below 256: the letters A to Z and
  the upper-case letters U+00C0 to U+00DE (but not the multiplication sign U+00D7) move up
  by 32; every other code unit is its own lower case.
\<close>

definition toLowerChar :: "char \<Rightarrow> char" where
  "toLowerChar c =
     (let n = (of_char c :: nat)
      in if (65 \<le> n \<and> n \<le> 90) \<or> (192 \<le> n \<and> n \<le> 222 \<and> n \<noteq> 215)
         then char_of (n + 32) else c)"

definition toLowerCase :: "string \<Rightarrow> string" where
  "toLowerCase s = map toLowerChar s"

text \<open>The character class \<^verbatim>\<open>[a-zA-Z0-9_-]\<close> of the regular expression, by code unit.\<close>

definition legalChar :: "char \<Rightarrow> bool" where
  "legalChar c =
     (let n = (of_char c :: nat)
      in (97 \<le> n \<and> n \<le> 122) \<or> (65 \<le> n \<and> n \<le> 90) \<or> (48 \<le> n \<and> n \<le> 57)
         \<or> n = 95 \<or> n = 45)"

text \<open>\<^verbatim>\<open>fieldName.replace(/[^a-zA-Z0-9_-]/g, "")\<close>: every code unit outside the class is removed.\<close>

definition stripIllegal :: "string \<Rightarrow> string" where
  "stripIllegal s = filter legalChar s"

text \<open>\<^verbatim>\<open>arr.join(sep)\<close> on an array of strings.\<close>

fun join :: "string \<Rightarrow> string list \<Rightarrow> string" where
  "join sep [] = []"
| "join sep [x] = x"
| "join sep (x # y # ys) = x @ sep @ join sep (y # ys)"

definition startsWith :: "string \<Rightarrow> string \<Rightarrow> bool" where
  "startsWith s p = (take (length p) s = p)"

definition endsWith :: "string \<Rightarrow> string \<Rightarrow> bool" where
  "endsWith s p = (length p \<le> length s \<and> drop (length s - length p) s = p)"

text \<open>
  \<^verbatim>\<open>s.substring(start, end)\<close> for indices that are natural numbers: both are clamped to the
  length and swapped when \<open>start\<close> is the larger.
\<close>

definition substring :: "string \<Rightarrow> nat \<Rightarrow> nat \<Rightarrow> string" where
  "substring s start end =
     (let a = min start (length s); b = min end (length s)
      in take (max a b - min a b) (drop (min a b) s))"

text \<open>The decimal digits of a natural number, as \<^verbatim>\<open>String(n)\<close> prints an array index.\<close>

fun natToString :: "nat \<Rightarrow> string" where
  "natToString n =
     (if n < 10 then [char_of (48 + n)]
      else natToString (n div 10) @ [char_of (48 + n mod 10)])"

declare natToString.simps [simp del]

subsection \<open>The field-name sanitizer\<close>

definition RESERVED_KEYWORDS :: "string list" where
  "RESERVED_KEYWORDS =
    [''all'', ''alter'', ''and'', ''array'', ''as'', ''authorization'', ''between'', ''bigint'',
     ''binary'', ''boolean'', ''both'', ''by'', ''case'', ''cashe'', ''cast'', ''char'', ''column'',
     ''conf'', ''constraint'', ''commit'', ''create'', ''cross'', ''cube'', ''current'',
     ''current_date'', ''current_timestamp'', ''cursor'', ''database'', ''date'',
     ''dayofweek'', ''decimal'', ''delete'', ''describe'', ''distinct'', ''double'', ''drop'',
     ''else'', ''end'', ''exchange'', ''exists'', ''extended'', ''external'', ''extract'',
     ''false'', ''fetch'', ''float'', ''floor'', ''following'', ''for'', ''foreign'', ''from'',
     ''full'', ''function'', ''grant'', ''group'', ''grouping'', ''having'', ''if'', ''import'',
     ''in'', ''inner'', ''insert'', ''int'', ''integer'', ''intersect'', ''interval'', ''into'',
     ''is'', ''join'', ''lateral'', ''left'', ''less'', ''like'', ''local'', ''macro'', ''map'',
     ''more'', ''none'', ''not'', ''null'', ''numeric'', ''of'', ''on'', ''only'', ''or'', ''order'',
     ''out'', ''outer'', ''over'', ''partialscan'', ''partition'', ''percent'', ''preceding'',
     ''precision'', ''preserve'', ''primary'', ''procedure'', ''range'', ''reads'', ''reduce'',
     ''regexp'', ''references'', ''revoke'', ''right'', ''rlike'', ''rollback'', ''rollup'',
     ''row'', ''rows'', ''select'', ''set'', ''smallint'', ''start'', ''table'', ''tablesample'',
     ''then'', ''time'', ''timestamp'', ''to'', ''transform'', ''trigger'', ''true'', ''truncate'',
     ''unbounded'', ''union'', ''uniquejoin'', ''update'', ''user'', ''using'', ''utc_timestamp'',
     ''values'', ''varchar'', ''views'', ''when'', ''where'', ''window'', ''with'']"

definition validatedFieldName :: "string \<Rightarrow> string" where
  "validatedFieldName fieldName =
     (if length fieldName = 0 then ''''
      else if toLowerCase fieldName \<in> set RESERVED_KEYWORDS
           then ''`'' @ stripIllegal fieldName @ ''`''
           else stripIllegal fieldName)"

subsection \<open>Values of the schema document\<close>

text \<open>
  What \<^verbatim>\<open>JSON.parse\<close> returns. An object is the list of its own properties in the order in
  which \<^verbatim>\<open>for ... in\<close> and \<^verbatim>\<open>Object.keys\<close> enumerate them, its keys pairwise distinct.

  A number \<open>JNum m e\<close> is the number written \<open>m / 10 ^ e\<close> in the document: \<open>JNum 5 0\<close>
  is \<^verbatim>\<open>5\<close>, \<open>JNum 50 1\<close> is \<^verbatim>\<open>5.0\<close> (the same JavaScript number), \<open>JNum 55 1\<close> is
  \<^verbatim>\<open>5.5\<close>.
\<close>

datatype json =
    JNull
  | JBool bool
  | JNum int nat
  | JStr string
  | JArr "json list"
  | JObj "(string \<times> json) list"

text \<open>
  The exceptions. The source throws \<^verbatim>\<open>Error("Data type 'null' is not supported by Iceberg
  schema.")\<close>, here \<open>UnsupportedType\<close> with the type keyword, and
  \<^verbatim>\<open>Error("Unknown data type '...'.")\<close>, here \<open>UnknownType\<close> with the type keyword. The
  engine throws \<open>TypeError\<close> on a property read of \<^verbatim>\<open>null\<close> or \<^verbatim>\<open>undefined\<close> and
  \<open>RangeError\<close> when the call stack is exhausted. \<open>NotModelled\<close> marks the conversions to a
  number that this embedding leaves out (see \<open>numberText\<close>).
\<close>

datatype error =
    UnsupportedType string
  | UnknownType string
  | TypeError
  | RangeError
  | NotModelled

text \<open>
  \<^verbatim>\<open>data[name]\<close> for the property names the source reads by name (\<^verbatim>\<open>type\<close>,
  \<^verbatim>\<open>properties\<close>, \<^verbatim>\<open>items\<close>, \<^verbatim>\<open>precision\<close>, \<^verbatim>\<open>scale\<close>, \<^verbatim>\<open>key\<close>, \<^verbatim>\<open>value\<close>):
  none of them is an index or a built-in property of a string, an array, a number or a
  boolean, so on those the read gives \<^verbatim>\<open>undefined\<close>; on \<^verbatim>\<open>null\<close> and \<^verbatim>\<open>undefined\<close> it
  throws.
\<close>

fun getProp :: "json option \<Rightarrow> string \<Rightarrow> error + json option" where
  "getProp None name = Inl TypeError"
| "getProp (Some JNull) name = Inl TypeError"
| "getProp (Some (JObj fs)) name = Inr (map_of fs name)"
| "getProp (Some v) name = Inr None"

text \<open>\<^verbatim>\<open>typeof v === "string"\<close>, with the string.\<close>

fun stringValue :: "json option \<Rightarrow> string option" where
  "stringValue (Some (JStr s)) = Some s"
| "stringValue v = None"

text \<open>
  The own enumerable properties that \<^verbatim>\<open>for (const key in v)\<close> visits, with \<^verbatim>\<open>v[key]\<close>:
  the fields of an object, the elements of an array and the characters of a string under
  their indices, nothing for a number, a boolean, \<^verbatim>\<open>null\<close> or \<^verbatim>\<open>undefined\<close>.
\<close>

definition indexed :: "'a list \<Rightarrow> (string \<times> 'a) list" where
  "indexed xs = zip (map natToString [0 ..< length xs]) xs"

fun forInEntries :: "json option \<Rightarrow> (string \<times> json) list" where
  "forInEntries (Some (JObj fs)) = fs"
| "forInEntries (Some (JArr xs)) = indexed xs"
| "forInEntries (Some (JStr s)) = indexed (map (\<lambda>c. JStr [c]) s)"
| "forInEntries v = []"

text \<open>
  \<^verbatim>\<open>Object.keys(v)\<close> zipped with \<^verbatim>\<open>Object.values(v)\<close>: the same properties, but
  \<^verbatim>\<open>null\<close> throws.
\<close>

fun objectEntries :: "json \<Rightarrow> error + (string \<times> json) list" where
  "objectEntries JNull = Inl TypeError"
| "objectEntries v = Inr (forInEntries (Some v))"

subsection \<open>Numbers in a template literal\<close>

text \<open>
  The \<open>e\<close> digits of \<open>r\<close> after the decimal point, with leading zeros, and the same without
  the zeros at the end.
\<close>

fun fractionDigits :: "nat \<Rightarrow> nat \<Rightarrow> string" where
  "fractionDigits 0 r = []"
| "fractionDigits (Suc e) r = fractionDigits e (r div 10) @ [char_of (48 + r mod 10)]"

definition stripTrailingZeros :: "string \<Rightarrow> string" where
  "stripTrailingZeros s = rev (dropWhile (\<lambda>c. c = CHR ''0'') (rev s))"

text \<open>
  \<^verbatim>\<open>Number.prototype.toString\<close> of the number \<open>m / 10 ^ e\<close>. With at most 15 significant
  digits the shortest decimal that reads back as the same double is the number as written,
  without the zeros at the end of its fraction, and from \<open>10 ^ -6\<close> up to \<open>10 ^ 21\<close> it is
  printed without an exponent. Numbers outside these bounds are not modelled.
\<close>

definition numberToString :: "int \<Rightarrow> nat \<Rightarrow> error + string" where
  "numberToString m e =
     (if \<bar>m\<bar> < 10 ^ 15 \<and> e \<le> 6 then
        (let a = nat \<bar>m\<bar>;
             fraction = stripTrailingZeros (fractionDigits e (a mod 10 ^ e))
         in Inr ((if m < 0 then ''-'' else '''') @ natToString (a div 10 ^ e)
                 @ (if fraction = [] then [] else ''.'' @ fraction)))
      else Inl NotModelled)"

text \<open>
  The text of \<^verbatim>\<open>${Number(v)}\<close>: \<^verbatim>\<open>undefined\<close> is \<^verbatim>\<open>NaN\<close>, \<^verbatim>\<open>null\<close> and \<^verbatim>\<open>false\<close>
  are 0, \<^verbatim>\<open>true\<close> is 1, a number is itself. The conversion of a string, an array or an
  object to a number is not modelled.
\<close>

fun numberText :: "json option \<Rightarrow> error + string" where
  "numberText None = Inr ''NaN''"
| "numberText (Some JNull) = Inr ''0''"
| "numberText (Some (JBool b)) = Inr (if b then ''1'' else ''0'')"
| "numberText (Some (JNum m e)) = numberToString m e"
| "numberText (Some v) = Inl NotModelled"

subsection \<open>The mapping overlay\<close>

text \<open>
  The \<^verbatim>\<open>mapping\<close> argument is \<^verbatim>\<open>undefined\<close> or a plain object, given by its own properties.
  \<^verbatim>\<open>key in mapping\<close> also finds the properties a plain object inherits from
  \<^verbatim>\<open>Object.prototype\<close>; none of those is enumerable and their values (functions, and
  \<^verbatim>\<open>Object.prototype\<close> itself under \<^verbatim>\<open>__proto__\<close>) have no enumerable property.
\<close>

type_synonym overlay = "(string \<times> json) list"

definition Object_prototype_keys :: "string list" where
  "Object_prototype_keys =
    [''constructor'', ''__defineGetter__'', ''__defineSetter__'', ''hasOwnProperty'',
     ''__lookupGetter__'', ''__lookupSetter__'', ''isPrototypeOf'', ''propertyIsEnumerable'',
     ''toString'', ''valueOf'', ''__proto__'', ''toLocaleString'']"

text \<open>\<^verbatim>\<open>mapping && key in mapping\<close>.\<close>

fun inMapping :: "overlay option \<Rightarrow> string \<Rightarrow> bool" where
  "inMapping None key = False"
| "inMapping (Some ov) key = (map_of ov key \<noteq> None \<or> key \<in> set Object_prototype_keys)"

text \<open>
  \<^verbatim>\<open>Object.keys(mapping[key])[0]\<close> with \<^verbatim>\<open>Object.values(mapping[key])[0]\<close>, for a key that is
  in the mapping: \<open>Inr None\<close> when there is no first property (the key is then
  \<^verbatim>\<open>undefined\<close>). A property read of an \<^verbatim>\<open>undefined\<close> mapping throws.
\<close>

fun mappingFirst :: "overlay option \<Rightarrow> string \<Rightarrow> error + (string \<times> json) option" where
  "mappingFirst None key = Inl TypeError"
| "mappingFirst (Some ov) key =
     (case map_of ov key of
        None \<Rightarrow> Inr None
      | Some entry \<Rightarrow>
          (case objectEntries entry of
             Inl err \<Rightarrow> Inl err
           | Inr [] \<Rightarrow> Inr None
           | Inr (kv # rest) \<Rightarrow> Inr (Some kv)))"

subsection \<open>The type mapper\<close>

text \<open>A \<^verbatim>\<open>for\<close> loop that pushes one string per element and stops at the first throw.\<close>

fun forEach :: "('a \<Rightarrow> error + string) \<Rightarrow> 'a list \<Rightarrow> error + string list" where
  "forEach f [] = Inr []"
| "forEach f (x # xs) =
     (case f x of
        Inl err \<Rightarrow> Inl err
      | Inr s \<Rightarrow> (case forEach f xs of Inl err \<Rightarrow> Inl err | Inr ss \<Rightarrow> Inr (s # ss)))"

text \<open>The template literal \<^verbatim>\<open>`${name}${sep}${type}`\<close> once the name is known.\<close>

definition fieldText :: "string \<Rightarrow> string \<Rightarrow> error + string \<Rightarrow> error + string" where
  "fieldText name sep r = (case r of Inl err \<Rightarrow> Inl err | Inr t \<Rightarrow> Inr (name @ sep @ t))"

text \<open>
  \<^verbatim>\<open>parseSqlSchemaFromObject(data, mapping)\<close>. The first argument bounds the depth of nested
  activations of the function: the source recurses without a bound of its own (on a
  non-empty string it calls itself on the one-character string \<^verbatim>\<open>data["0"]\<close> again and
  again), and the engine ends a recursion that exhausts the call stack with a
  \<open>RangeError\<close>.
\<close>

fun parseSqlSchemaFromObject :: "nat \<Rightarrow> json option \<Rightarrow> overlay option \<Rightarrow> error + string" where
  "parseSqlSchemaFromObject 0 data mapping = Inl RangeError"
| "parseSqlSchemaFromObject (Suc depth) data mapping =
     (case getProp data ''type'' of
        Inl err \<Rightarrow> Inl err
      | Inr ty \<Rightarrow>
     (case stringValue ty of
        None \<Rightarrow>
          (case getProp data ''properties'' of
             Inl err \<Rightarrow> Inl err
           | Inr (Some props) \<Rightarrow> parseSqlSchemaFromObject depth (Some props) mapping
           | Inr None \<Rightarrow>
               (case forEach
                  (\<lambda>(key, child).
                     if inMapping mapping key then
                       (case mappingFirst mapping key of
                          Inl err \<Rightarrow> Inl err
                        | Inr None \<Rightarrow> Inl TypeError
                        | Inr (Some (newKey, newValue)) \<Rightarrow>
                            fieldText (validatedFieldName newKey) '' ''
                              (parseSqlSchemaFromObject depth (Some newValue) None))
                     else
                       fieldText (validatedFieldName key) '' ''
                         (parseSqlSchemaFromObject depth (Some child) None))
                  (forInEntries data) of
                  Inl err \<Rightarrow> Inl err
                | Inr arr \<Rightarrow> Inr (''struct<'' @ join '', '' arr @ ''>'')))
      | Some t \<Rightarrow>
          if t = ''null'' then Inl (UnsupportedType t)
          else if t = ''string'' then Inr ''string''
          else if t = ''boolean'' then Inr ''boolean''
          else if t = ''integer'' then Inr ''int''
          else if t = ''number'' then Inr ''float''
          else if t = ''array'' then
            (case getProp data ''items'' of
               Inl err \<Rightarrow> Inl err
             | Inr items \<Rightarrow>
                 (case parseSqlSchemaFromObject depth items None of
                    Inl err \<Rightarrow> Inl err
                  | Inr s \<Rightarrow> Inr (''array<'' @ s @ ''>'')))
          else if t = ''object'' then
            (case getProp data ''properties'' of
               Inl err \<Rightarrow> Inl err
             | Inr props \<Rightarrow>
                 (case forEach
                    (\<lambda>(key, child).
                       fieldText (validatedFieldName key) '': ''
                         (parseSqlSchemaFromObject depth (Some child) None))
                    (forInEntries props) of
                    Inl err \<Rightarrow> Inl err
                  | Inr arr \<Rightarrow> Inr (''struct<'' @ join '', '' arr @ ''>'')))
          else if t = ''float'' then Inr ''float''
          else if t = ''date'' then Inr ''date''
          else if t = ''datetime'' then Inr ''timestamp''
          else if t = ''timestamp'' then Inr ''bigint''
          else if t = ''long'' then Inr ''bigint''
          else if t = ''decimal'' then
            (case getProp data ''properties'' of
               Inl err \<Rightarrow> Inl err
             | Inr props \<Rightarrow>
            (case getProp props ''precision'' of
               Inl err \<Rightarrow> Inl err
             | Inr precision \<Rightarrow>
            (case numberText precision of
               Inl err \<Rightarrow> Inl err
             | Inr p \<Rightarrow>
            (case getProp props ''scale'' of
               Inl err \<Rightarrow> Inl err
             | Inr scale \<Rightarrow>
            (case numberText scale of
               Inl err \<Rightarrow> Inl err
             | Inr s \<Rightarrow> Inr (''decimal('' @ p @ '','' @ s @ '')''))))))
          else if t = ''map'' then
            (case getProp data ''properties'' of
               Inl err \<Rightarrow> Inl err
             | Inr props \<Rightarrow>
            (case getProp props ''key'' of
               Inl err \<Rightarrow> Inl err
             | Inr k \<Rightarrow>
            (case parseSqlSchemaFromObject depth k None of
               Inl err \<Rightarrow> Inl err
             | Inr ks \<Rightarrow>
            (case getProp props ''value'' of
               Inl err \<Rightarrow> Inl err
             | Inr v \<Rightarrow>
            (case parseSqlSchemaFromObject depth v None of
               Inl err \<Rightarrow> Inl err
             | Inr vs \<Rightarrow> Inr (''map<'' @ ks @ '', '' @ vs @ ''>''))))))
          else Inl (UnknownType t)))"

declare parseSqlSchemaFromObject.simps(2) [simp del]

subsection \<open>The assembler\<close>

text \<open>
  \<^verbatim>\<open>readSqlSchemaFromJson\<close> after \<^verbatim>\<open>fs.readFileSync\<close> and \<^verbatim>\<open>JSON.parse\<close>: \<open>data\<close> is the
  parsed document, \<open>depth\<close> the depth of call stack left for the type mapper.
\<close>

definition readSqlSchemaFromJson :: "nat \<Rightarrow> json \<Rightarrow> overlay option \<Rightarrow> error + string" where
  "readSqlSchemaFromJson depth data mapping =
     (case parseSqlSchemaFromObject depth (Some data) mapping of
        Inl err \<Rightarrow> Inl err
      | Inr result \<Rightarrow>
          if startsWith result ''struct<'' \<and> endsWith result ''>''
          then Inr (substring result 7 (length result - 1))
          else Inr result)"

subsection \<open>Notions of the specification\<close>

text \<open>The characters a field name may keep, spelled out, and their code units.\<close>

definition legalAlphabet :: "string" where
  "legalAlphabet = ''abcdefghijklmnopqrstuvwxyzABCDEFGHIJKLMNOPQRSTUVWXYZ0123456789_-''"

definition legalCodes :: "nat list" where
  "legalCodes = [97 ..< 123] @ [65 ..< 91] @ [48 ..< 58] @ [95, 45]"

text \<open>
  The table of the primitive type keywords and the list of all recognized type keywords, as
  the specification gives them.
\<close>

definition primitiveTable :: "(string \<times> string) list" where
  "primitiveTable =
    [(''string'', ''string''), (''boolean'', ''boolean''), (''integer'', ''int''),
     (''number'', ''float''), (''float'', ''float''), (''date'', ''date''),
     (''datetime'', ''timestamp''), (''timestamp'', ''bigint''), (''long'', ''bigint'')]"

definition recognizedKeywords :: "string list" where
  "recognizedKeywords =
    [''string'', ''boolean'', ''integer'', ''number'', ''float'', ''date'', ''datetime'',
     ''timestamp'', ''long'', ''decimal'', ''array'', ''object'', ''map'']"

text \<open>
  The text of a struct: \<open>struct<\<close>, the fields as sanitized name, separator and type,
  joined by a comma and a space, and \<open>>\<close>.
\<close>

definition structText :: "string \<Rightarrow> (string \<times> string) list \<Rightarrow> string" where
  "structText sep named =
     ''struct<'' @ join '', '' (map (\<lambda>(name, t). validatedFieldName name @ sep @ t) named) @ ''>''"







subsection \<open>Documents of the specification\<close>

text \<open>
  \<open>typeNode t\<close> is \<^verbatim>\<open>{"type": t}\<close>; \<open>decimalNode p s\<close> is
  \<^verbatim>\<open>{"type": "decimal", "properties": {"precision": p, "scale": s}}\<close>. The documents
  and the overlay are those of the examples of the specification, and two documents with
  the key \<open>json_str\<close> below the root.
\<close>

definition typeNode :: "string \<Rightarrow> json" where
  "typeNode t = JObj [(''type'', JStr t)]"


definition doc_id_ts :: "json" where
  "doc_id_ts = JObj [(''id'', typeNode ''string''), (''ts'', typeNode ''timestamp'')]"

definition doc_other :: "json" where
  "doc_other =
     JObj [(''other'', JObj [(''type'', JStr ''object''),
                             (''properties'', JObj [(''col1'', typeNode ''integer''),
                                                    (''col2'', typeNode ''float'')])])]"

definition doc_null :: "json" where
  "doc_null = JObj [(''x'', typeNode ''null'')]"

definition doc_bogus :: "json" where
  "doc_bogus = JObj [(''x'', typeNode ''bogus'')]"






section \<open>Properties of the field-name sanitizer\<close>

lemma legalAlphabet_codes: "map char_of legalCodes = legalAlphabet"
  by code_simp

lemma legalCodes_iff: "n \<in> set legalCodes \<longleftrightarrow>
    (97 \<le> n \<and> n \<le> 122) \<or> (65 \<le> n \<and> n \<le> 90) \<or> (48 \<le> n \<and> n \<le> 57) \<or> n = 95 \<or> n = 45"
  unfolding legalCodes_def set_append set_upt by auto

lemma legalChar_iff_alphabet: "legalChar c \<longleftrightarrow> c \<in> set legalAlphabet"
proof
  assume "legalChar c"
  then have "(of_char c :: nat) \<in> set legalCodes"
    by (simp add: legalChar_def legalCodes_iff Let_def)
  then have "char_of (of_char c :: nat) \<in> set (map char_of legalCodes)"
    by (simp only: set_map) (rule imageI)
  then show "c \<in> set legalAlphabet"
    by (simp add: legalAlphabet_codes)
next
  assume "c \<in> set legalAlphabet"
  then obtain n where n: "n \<in> set legalCodes" and c: "c = char_of n"
    unfolding legalAlphabet_codes [symmetric] by auto
  from n have "n < 256"
    by (auto simp: legalCodes_iff)
  with c have "(of_char c :: nat) = n"
    by simp
  with n show "legalChar c"
    by (simp add: legalChar_def legalCodes_iff Let_def)
qed

lemma empty_not_reserved: "[] \<notin> set RESERVED_KEYWORDS"
  by (simp add: RESERVED_KEYWORDS_def)

lemma reserved_legal: "\<forall>w \<in> set RESERVED_KEYWORDS. \<forall>c \<in> set w. legalChar c"
  by code_simp

lemma legalChar_toLowerChar: "legalChar (toLowerChar c) \<Longrightarrow> legalChar c"
  unfolding legalChar_def toLowerChar_def Let_def
  by (auto split: if_splits)

lemma reserved_original_legal:
  assumes "toLowerCase n \<in> set RESERVED_KEYWORDS"
  shows "stripIllegal n = n"
proof -
  have "\<forall>c \<in> set (toLowerCase n). legalChar c"
    using assms reserved_legal by blast
  then have "\<forall>c \<in> set n. legalChar c"
    by (auto simp: toLowerCase_def intro: legalChar_toLowerChar)
  then show ?thesis
    by (simp add: stripIllegal_def)
qed

lemma backtick_illegal: "\<not> legalChar (CHR 0x60)"
  by (simp add: legalChar_def)

lemma backtick_not_in_strip: "CHR 0x60 \<notin> set (stripIllegal n)"
  using backtick_illegal by (auto simp: stripIllegal_def)

lemma stripIllegal_idem: "stripIllegal (stripIllegal n) = stripIllegal n"
  by (simp add: stripIllegal_def)

text \<open>
  Claim C7. \<open>validatedFieldName\<close> returns the empty string on the empty name. On any
  other name it returns the name without the characters outside \<open>[A-Za-z0-9_-]\<close>, between
  backticks when the lower-case form of the original name is a reserved keyword and bare
  otherwise, so that the result holds a backtick exactly for a non-empty reserved name;
  \<open>table\<close> becomes \<open>`table`\<close> and \<open>my_col\<close> stays as it is.
\<close>

theorem validatedFieldName_strips_and_quotes:
  "validatedFieldName [] = []
   \<and> (n \<noteq> [] \<and> toLowerCase n \<in> set RESERVED_KEYWORDS \<longrightarrow>
        validatedFieldName n = ''`'' @ filter (\<lambda>c. c \<in> set legalAlphabet) n @ ''`'')
   \<and> (n \<noteq> [] \<and> toLowerCase n \<notin> set RESERVED_KEYWORDS \<longrightarrow>
        validatedFieldName n = filter (\<lambda>c. c \<in> set legalAlphabet) n)
   \<and> (CHR 0x60 \<in> set (validatedFieldName n) \<longleftrightarrow>
        n \<noteq> [] \<and> toLowerCase n \<in> set RESERVED_KEYWORDS)
   \<and> validatedFieldName ''table'' = ''`table`''
   \<and> validatedFieldName ''my_col'' = ''my_col''"
proof -
  have "legalChar = (\<lambda>c. c \<in> set legalAlphabet)"
    by (rule ext) (rule legalChar_iff_alphabet)
  then have strip: "stripIllegal n = filter (\<lambda>c. c \<in> set legalAlphabet) n"
    by (simp add: stripIllegal_def)
  have a: "validatedFieldName [] = []"
    by (simp add: validatedFieldName_def)
  have b: "n \<noteq> [] \<and> toLowerCase n \<in> set RESERVED_KEYWORDS \<longrightarrow>
        validatedFieldName n = ''`'' @ filter (\<lambda>c. c \<in> set legalAlphabet) n @ ''`''"
    by (simp add: validatedFieldName_def strip)
  have c: "n \<noteq> [] \<and> toLowerCase n \<notin> set RESERVED_KEYWORDS \<longrightarrow>
        validatedFieldName n = filter (\<lambda>c. c \<in> set legalAlphabet) n"
    by (simp add: validatedFieldName_def strip)
  have d: "CHR 0x60 \<in> set (validatedFieldName n) \<longleftrightarrow>
        n \<noteq> [] \<and> toLowerCase n \<in> set RESERVED_KEYWORDS"
    using backtick_not_in_strip [of n] by (simp add: validatedFieldName_def)
  have e: "validatedFieldName ''table'' = ''`table`''"
    by code_simp
  have f: "validatedFieldName ''my_col'' = ''my_col''"
    by code_simp
  from a b c d e f show ?thesis by blast
qed

theorem validatedFieldName_strips_and_quotes_witness:
  "''Select'' \<noteq> [] \<and> toLowerCase ''Select'' \<in> set RESERVED_KEYWORDS
   \<and> validatedFieldName ''Select'' = ''`Select`''
   \<and> CHR 0x60 \<in> set (validatedFieldName ''Select'')"
proof -
  have h: "''Select'' \<noteq> [] \<and> toLowerCase ''Select'' \<in> set RESERVED_KEYWORDS"
    by code_simp
  have f: "filter (\<lambda>c. c \<in> set legalAlphabet) ''Select'' = ''Select''"
    by code_simp
  from validatedFieldName_strips_and_quotes [of "''Select''"] h f show ?thesis
    by simp
qed

text \<open>
  Claim C8. On a name that is not reserved and holds only characters of
  \<open>[A-Za-z0-9_-]\<close>, \<open>validatedFieldName\<close> is the identity, hence idempotent.
\<close>

theorem validatedFieldName_idempotent:
  assumes "toLowerCase n \<notin> set RESERVED_KEYWORDS"
    and "\<forall>c \<in> set n. c \<in> set legalAlphabet"
  shows "validatedFieldName n = n
         \<and> validatedFieldName (validatedFieldName n) = validatedFieldName n"
proof -
  have "stripIllegal n = n"
    using assms(2) by (simp add: stripIllegal_def legalChar_iff_alphabet)
  then have "validatedFieldName n = n"
    using assms(1) by (simp add: validatedFieldName_def)
  then show ?thesis by simp
qed

theorem validatedFieldName_idempotent_witness:
  "toLowerCase ''my_col'' \<notin> set RESERVED_KEYWORDS
   \<and> set ''my_col'' \<subseteq> set legalAlphabet
   \<and> validatedFieldName ''my_col'' = ''my_col''
   \<and> validatedFieldName (validatedFieldName ''my_col'') = validatedFieldName ''my_col''"
proof -
  have h1: "toLowerCase ''my_col'' \<notin> set RESERVED_KEYWORDS"
    by code_simp
  have h2: "\<forall>c \<in> set ''my_col''. c \<in> set legalAlphabet"
    by code_simp
  from validatedFieldName_idempotent [OF h1 h2] h1 h2 show ?thesis
    by blast
qed

text \<open>
  Claim C10. A non-empty name that is not reserved as written but whose stripped form is
  reserved comes back as the bare stripped form, without backticks, because only the
  original name is looked up; sanitizing that result again quotes it, so the second pass
  differs from the first.
\<close>

theorem validatedFieldName_hidden_reserved:
  assumes "name \<noteq> []"
    and "toLowerCase name \<notin> set RESERVED_KEYWORDS"
    and "toLowerCase (stripIllegal name) \<in> set RESERVED_KEYWORDS"
  shows "validatedFieldName name = stripIllegal name
         \<and> CHR 0x60 \<notin> set (validatedFieldName name)
         \<and> validatedFieldName (validatedFieldName name) = ''`'' @ stripIllegal name @ ''`''
         \<and> validatedFieldName (validatedFieldName name) \<noteq> validatedFieldName name"
proof -
  have first: "validatedFieldName name = stripIllegal name"
    using assms(1,2) by (simp add: validatedFieldName_def)
  have nonempty: "stripIllegal name \<noteq> []"
    using assms(3) empty_not_reserved by (auto simp: toLowerCase_def)
  have second: "validatedFieldName (stripIllegal name) = ''`'' @ stripIllegal name @ ''`''"
    using nonempty assms(3) by (simp add: validatedFieldName_def stripIllegal_idem)
  have "length (''`'' @ stripIllegal name @ ''`'') \<noteq> length (stripIllegal name)"
    by simp
  then have differ: "''`'' @ stripIllegal name @ ''`'' \<noteq> stripIllegal name"
    by metis
  from first second differ backtick_not_in_strip [of name] show ?thesis
    by simp
qed

theorem validatedFieldName_hidden_reserved_witness:
  "''ta ble'' \<noteq> [] \<and> toLowerCase ''ta ble'' \<notin> set RESERVED_KEYWORDS
   \<and> toLowerCase (stripIllegal ''ta ble'') \<in> set RESERVED_KEYWORDS
   \<and> validatedFieldName ''ta ble'' = ''table''
   \<and> validatedFieldName (validatedFieldName ''ta ble'') = ''`table`''"
proof -
  have h1: "''ta ble'' \<noteq> []" by simp
  have h2: "toLowerCase ''ta ble'' \<notin> set RESERVED_KEYWORDS" by code_simp
  have h3: "toLowerCase (stripIllegal ''ta ble'') \<in> set RESERVED_KEYWORDS" by code_simp
  have s: "stripIllegal ''ta ble'' = ''table''" by code_simp
  have e: "''`'' @ ''table'' @ ''`'' = ''`table`''" by simp
  note r = validatedFieldName_hidden_reserved [OF h1 h2 h3, unfolded s e]
  from r h1 h2 h3 show ?thesis
    by blast
qed

section \<open>Lemmas on the type mapper\<close>

subsection \<open>The loop over the fields\<close>

lemma forEach_all2:
  "list_all2 (\<lambda>x t. f x = Inr (g x t)) xs ts \<Longrightarrow> forEach f xs = Inr (map2 g xs ts)"
  by (induction xs ts rule: list_all2_induct) simp_all


lemma forEach_first_error:
  "(\<forall>x \<in> set pre. \<exists>s. f x = Inr s) \<Longrightarrow> f x = Inl e \<Longrightarrow> forEach f (pre @ x # post) = Inl e"
  by (induction pre) auto

subsection \<open>One equation for each branch\<close>

lemmas parse_step = parseSqlSchemaFromObject.simps(2)

lemma primitive_cases:
  assumes "map_of primitiveTable t = Some s"
  shows "t = ''string'' \<and> s = ''string'' \<or> t = ''boolean'' \<and> s = ''boolean''
      \<or> t = ''integer'' \<and> s = ''int'' \<or> t = ''number'' \<and> s = ''float''
      \<or> t = ''float'' \<and> s = ''float'' \<or> t = ''date'' \<and> s = ''date''
      \<or> t = ''datetime'' \<and> s = ''timestamp'' \<or> t = ''timestamp'' \<and> s = ''bigint''
      \<or> t = ''long'' \<and> s = ''bigint''"
proof -
  from assms have "(t, s) \<in> set primitiveTable"
    by (rule map_of_SomeD)
  then show ?thesis
    by (simp add: primitiveTable_def)
qed

lemma primitive_not_struct:
  assumes "map_of primitiveTable t = Some s"
  shows "\<not> startsWith s ''struct<''"
  using primitive_cases [OF assms]
  by (elim disjE conjE; hypsubst; simp add: startsWith_def)

lemma parse_primitive:
  assumes "map_of fs ''type'' = Some (JStr t)" and "map_of primitiveTable t = Some s"
  shows "parseSqlSchemaFromObject (Suc n) (Some (JObj fs)) m = Inr s"
  using primitive_cases [OF assms(2)] assms(1)
  by (elim disjE conjE; hypsubst; simp add: parse_step)

lemma parse_null:
  assumes "map_of fs ''type'' = Some (JStr ''null'')"
  shows "parseSqlSchemaFromObject (Suc n) (Some (JObj fs)) m = Inl (UnsupportedType ''null'')"
  using assms by (simp add: parse_step)

lemma parse_unknown:
  assumes "map_of fs ''type'' = Some (JStr t)" and "t \<noteq> ''null''" and "t \<notin> set recognizedKeywords"
  shows "parseSqlSchemaFromObject (Suc n) (Some (JObj fs)) m = Inl (UnknownType t)"
  using assms by (simp add: parse_step recognizedKeywords_def)

lemma parse_array:
  assumes "map_of fs ''type'' = Some (JStr ''array'')"
  shows "parseSqlSchemaFromObject (Suc n) (Some (JObj fs)) m =
         (case parseSqlSchemaFromObject n (map_of fs ''items'') None of
            Inl err \<Rightarrow> Inl err | Inr s \<Rightarrow> Inr (''array<'' @ s @ ''>''))"
  using assms by (simp add: parse_step)

lemma parse_object:
  assumes "map_of fs ''type'' = Some (JStr ''object'')"
  shows "parseSqlSchemaFromObject (Suc n) (Some (JObj fs)) m =
         (case forEach (\<lambda>(key, child). fieldText (validatedFieldName key) '': ''
                          (parseSqlSchemaFromObject n (Some child) None))
                 (forInEntries (map_of fs ''properties'')) of
            Inl err \<Rightarrow> Inl err | Inr arr \<Rightarrow> Inr (''struct<'' @ join '', '' arr @ ''>''))"
  using assms by (simp add: parse_step)

lemma parse_map:
  assumes "map_of fs ''type'' = Some (JStr ''map'')" and "map_of fs ''properties'' = Some (JObj ps)"
  shows "parseSqlSchemaFromObject (Suc n) (Some (JObj fs)) m =
         (case parseSqlSchemaFromObject n (map_of ps ''key'') None of
            Inl err \<Rightarrow> Inl err
          | Inr ks \<Rightarrow>
              (case parseSqlSchemaFromObject n (map_of ps ''value'') None of
                 Inl err \<Rightarrow> Inl err
               | Inr vs \<Rightarrow> Inr (''map<'' @ ks @ '', '' @ vs @ ''>'')))"
  using assms by (simp add: parse_step cong: sum.case_cong)


lemma parse_unwrap:
  assumes "stringValue (map_of fs ''type'') = None" and "map_of fs ''properties'' = Some props"
  shows "parseSqlSchemaFromObject (Suc n) (Some (JObj fs)) m =
         parseSqlSchemaFromObject n (Some props) m"
  using assms by (simp add: parse_step)

lemma parse_grouping:
  assumes "stringValue (map_of fs ''type'') = None" and "map_of fs ''properties'' = None"
  shows "parseSqlSchemaFromObject (Suc n) (Some (JObj fs)) m =
         (case forEach
            (\<lambda>(key, child).
               if inMapping m key then
                 (case mappingFirst m key of
                    Inl err \<Rightarrow> Inl err
                  | Inr None \<Rightarrow> Inl TypeError
                  | Inr (Some (newKey, newValue)) \<Rightarrow>
                      fieldText (validatedFieldName newKey) '' ''
                        (parseSqlSchemaFromObject n (Some newValue) None))
               else
                 fieldText (validatedFieldName key) '' ''
                   (parseSqlSchemaFromObject n (Some child) None))
            fs of
            Inl err \<Rightarrow> Inl err
          | Inr arr \<Rightarrow> Inr (''struct<'' @ join '', '' arr @ ''>''))"
  using assms by (simp add: parse_step)

lemma parse_typeNode:
  "map_of primitiveTable t = Some s \<Longrightarrow>
   parseSqlSchemaFromObject (Suc n) (Some (typeNode t)) m = Inr s"
  unfolding typeNode_def by (rule parse_primitive [where t = t]) simp_all

subsection \<open>The assembler\<close>

lemma unwrap_struct:
  "substring (''struct<'' @ body @ ''>'') 7 (length (''struct<'' @ body @ ''>'') - 1) = body"
  by (simp add: substring_def)

lemma starts_ends_struct:
  "startsWith (''struct<'' @ body @ ''>'') ''struct<'' \<and> endsWith (''struct<'' @ body @ ''>'') ''>''"
  by (simp add: startsWith_def endsWith_def)

lemma read_struct:
  assumes "parseSqlSchemaFromObject n (Some d) m = Inr (''struct<'' @ body @ ''>'')"
  shows "readSqlSchemaFromJson n d m = Inr body"
  unfolding readSqlSchemaFromJson_def assms
  by (simp only: sum.case starts_ends_struct unwrap_struct simp_thms if_True)

lemma read_other:
  assumes "parseSqlSchemaFromObject n (Some d) m = Inr r" and "\<not> startsWith r ''struct<''"
  shows "readSqlSchemaFromJson n d m = Inr r"
  using assms by (simp add: readSqlSchemaFromJson_def)

lemma read_error:
  assumes "parseSqlSchemaFromObject n (Some d) m = Inl e"
  shows "readSqlSchemaFromJson n d m = Inl e"
  using assms by (simp add: readSqlSchemaFromJson_def)

subsection \<open>Rendering of structs\<close>

lemma map2_structText:
  "length ps = length ts \<Longrightarrow>
   map2 (\<lambda>(key, child) t. validatedFieldName key @ sep @ t) ps ts =
   map (\<lambda>(name, t). validatedFieldName name @ sep @ t) (zip (map fst ps) ts)"
  by (induction ps ts rule: list_induct2) auto

lemma forEach_fields:
  assumes "list_all2 (\<lambda>(k, v) t. parseSqlSchemaFromObject n (Some v) None = Inr t) ps ts"
  shows "forEach (\<lambda>(key, child). fieldText (validatedFieldName key) sep
                    (parseSqlSchemaFromObject n (Some child) None)) ps =
         Inr (map (\<lambda>(name, t). validatedFieldName name @ sep @ t) (zip (map fst ps) ts))"
proof -
  have "list_all2 (\<lambda>x t. (case x of (key, child) \<Rightarrow> fieldText (validatedFieldName key) sep
                    (parseSqlSchemaFromObject n (Some child) None)) =
                 Inr ((case x of (key, child) \<Rightarrow> \<lambda>t. validatedFieldName key @ sep @ t) t)) ps ts"
    using assms by (rule list_all2_mono) (auto simp: fieldText_def)
  then have "forEach (\<lambda>(key, child). fieldText (validatedFieldName key) sep
                    (parseSqlSchemaFromObject n (Some child) None)) ps =
             Inr (map2 (\<lambda>(key, child) t. validatedFieldName key @ sep @ t) ps ts)"
    by (rule forEach_all2)
  moreover have "length ps = length ts"
    using assms by (rule list_all2_lengthD)
  ultimately show ?thesis
    by (simp only: map2_structText)
qed

lemma explicit_object_colon:
  assumes "map_of fs ''type'' = Some (JStr ''object'')"
    and "map_of fs ''properties'' = Some (JObj ps)"
    and "list_all2 (\<lambda>(k, v) t. parseSqlSchemaFromObject n (Some v) None = Inr t) ps ts"
  shows "parseSqlSchemaFromObject (Suc n) (Some (JObj fs)) m =
         Inr (structText '': '' (zip (map fst ps) ts))"
  by (simp add: parse_object [OF assms(1)] assms(2) forEach_fields [OF assms(3)] structText_def)

lemma inMapping_None: "inMapping None = (\<lambda>key. False)"
  by (rule ext) simp

lemma implicit_grouping_space:
  assumes "stringValue (map_of gs ''type'') = None"
    and "map_of gs ''properties'' = None"
    and "list_all2 (\<lambda>(k, v) t. parseSqlSchemaFromObject n (Some v) None = Inr t) gs us"
  shows "parseSqlSchemaFromObject (Suc n) (Some (JObj gs)) None =
         Inr (structText '' '' (zip (map fst gs) us))"
  by (simp add: parse_grouping [OF assms(1,2)] forEach_fields [OF assms(3)] structText_def)



subsection \<open>The overlay\<close>

lemma parse_grouping_any:
  assumes "getProp data ''type'' = Inr ty" and "stringValue ty = None"
    and "getProp data ''properties'' = Inr None"
  shows "parseSqlSchemaFromObject (Suc n) data m =
         (case forEach
            (\<lambda>(key, child).
               if inMapping m key then
                 (case mappingFirst m key of
                    Inl err \<Rightarrow> Inl err
                  | Inr None \<Rightarrow> Inl TypeError
                  | Inr (Some (newKey, newValue)) \<Rightarrow>
                      fieldText (validatedFieldName newKey) '' ''
                        (parseSqlSchemaFromObject n (Some newValue) None))
               else
                 fieldText (validatedFieldName key) '' ''
                   (parseSqlSchemaFromObject n (Some child) None))
            (forInEntries data) of
            Inl err \<Rightarrow> Inl err
          | Inr arr \<Rightarrow> Inr (''struct<'' @ join '', '' arr @ ''>''))"
  using assms by (simp add: parse_step)








subsection \<open>The bound on the call depth\<close>

text \<open>
  On a non-empty string the type mapper exhausts every call depth. A result other than
  \<open>RangeError\<close> does not depend on the depth that was left over: with more depth the
  result is the same.
\<close>

lemma indexed_Cons: "indexed (x # xs) = (natToString 0, x) # zip (map natToString [1 ..< Suc (length xs)]) xs"
  by (simp add: indexed_def upt_rec)

lemma parse_nonempty_string:
  "s \<noteq> [] \<Longrightarrow> parseSqlSchemaFromObject n (Some (JStr s)) None = Inl RangeError"
proof (induction n arbitrary: s)
  case 0
  show ?case by simp
next
  case (Suc n)
  from Suc.prems obtain c cs where s: "s = c # cs"
    by (cases s) auto
  have first: "parseSqlSchemaFromObject n (Some (JStr [c])) None = Inl RangeError"
    by (rule Suc.IH) simp
  have g: "getProp (Some (JStr s)) ''type'' = Inr None" "stringValue None = None"
    "getProp (Some (JStr s)) ''properties'' = Inr None"
    by simp_all
  show ?case
    by (subst parse_grouping_any [OF g]) (simp add: s indexed_Cons first fieldText_def)
qed

lemma forEach_agree:
  assumes "forEach f xs = r" and "r \<noteq> Inl RangeError"
    and "\<And>x. x \<in> set xs \<Longrightarrow> f x \<noteq> Inl RangeError \<Longrightarrow> g x = f x"
  shows "forEach g xs = r"
  using assms
proof (induction xs arbitrary: r)
  case Nil
  then show ?case by simp
next
  case (Cons x xs)
  show ?case
  proof (cases "f x")
    case (Inl e)
    with Cons.prems(1,2) have "f x \<noteq> Inl RangeError" by auto
    with Cons.prems(3) have "g x = f x" by simp
    with Inl Cons.prems(1) show ?thesis by simp
  next
    case (Inr t)
    note fx = this
    then have "g x = f x" using Cons.prems(3) by simp
    show ?thesis
    proof (cases "forEach f xs")
      case (Inl e)
      with fx Cons.prems(1,2) have "forEach f xs \<noteq> Inl RangeError" by auto
      with Cons.IH [OF refl] Cons.prems(3) have "forEach g xs = forEach f xs" by simp
      with \<open>g x = f x\<close> fx Cons.prems(1) show ?thesis by simp
    next
      case (Inr ts)
      with Cons.IH [OF refl] Cons.prems(3) have "forEach g xs = forEach f xs" by simp
      with \<open>g x = f x\<close> fx Cons.prems(1) show ?thesis by simp
    qed
  qed
qed

lemma fieldText_not_RangeError:
  "fieldText name sep r \<noteq> Inl RangeError \<Longrightarrow> r \<noteq> Inl RangeError"
  by (auto simp: fieldText_def)

lemma grouping_deeper:
  assumes IH: "\<And>d m. parseSqlSchemaFromObject n d m \<noteq> Inl RangeError \<Longrightarrow>
                 parseSqlSchemaFromObject (Suc n) d m = parseSqlSchemaFromObject n d m"
    and g: "getProp data ''type'' = Inr ty" "stringValue ty = None"
      "getProp data ''properties'' = Inr None"
    and ok: "parseSqlSchemaFromObject (Suc n) data m \<noteq> Inl RangeError"
  shows "parseSqlSchemaFromObject (Suc (Suc n)) data m = parseSqlSchemaFromObject (Suc n) data m"
proof -
  define F where "F k = (\<lambda>(key, child).
               if inMapping m key then
                 (case mappingFirst m key of
                    Inl err \<Rightarrow> Inl err
                  | Inr None \<Rightarrow> Inl TypeError
                  | Inr (Some (newKey, newValue)) \<Rightarrow>
                      fieldText (validatedFieldName newKey) '' ''
                        (parseSqlSchemaFromObject k (Some newValue) None))
               else
                 fieldText (validatedFieldName key) '' ''
                   (parseSqlSchemaFromObject k (Some child) None))" for k
  have unfold: "parseSqlSchemaFromObject (Suc k) data m =
      (case forEach (F k) (forInEntries data) of
         Inl err \<Rightarrow> Inl err
       | Inr arr \<Rightarrow> Inr (''struct<'' @ join '', '' arr @ ''>''))" for k
    unfolding F_def by (rule parse_grouping_any [OF g])
  have fields: "forEach (F n) (forInEntries data) \<noteq> Inl RangeError"
    using ok unfolding unfold by auto
  have step: "F (Suc n) x = F n x" if "F n x \<noteq> Inl RangeError" for x
  proof (cases x)
    case (Pair key child)
    show ?thesis
    proof (cases "inMapping m key")
      case True
      show ?thesis
      proof (cases "mappingFirst m key")
        case (Inl e)
        with True Pair show ?thesis by (simp add: F_def)
      next
        case (Inr found)
        show ?thesis
        proof (cases found)
          case None
          with True Pair Inr show ?thesis by (simp add: F_def)
        next
          case (Some kv)
          obtain newKey newValue where kv: "kv = (newKey, newValue)"
            by (cases kv)
          from that True Pair Inr Some kv
          have "parseSqlSchemaFromObject n (Some newValue) None \<noteq> Inl RangeError"
            by (auto simp: F_def dest: fieldText_not_RangeError)
          then have "parseSqlSchemaFromObject (Suc n) (Some newValue) None =
                     parseSqlSchemaFromObject n (Some newValue) None"
            by (rule IH)
          with True Pair Inr Some kv show ?thesis by (simp add: F_def)
        qed
      qed
    next
      case False
      from that False Pair
      have "parseSqlSchemaFromObject n (Some child) None \<noteq> Inl RangeError"
        by (auto simp: F_def dest: fieldText_not_RangeError)
      then have "parseSqlSchemaFromObject (Suc n) (Some child) None =
                 parseSqlSchemaFromObject n (Some child) None"
        by (rule IH)
      with False Pair show ?thesis by (simp add: F_def)
    qed
  qed
  have "forEach (F (Suc n)) (forInEntries data) = forEach (F n) (forInEntries data)"
    using refl fields step by (rule forEach_agree)
  then show ?thesis
    by (simp only: unfold)
qed

lemma object_deeper:
  assumes IH: "\<And>d m. parseSqlSchemaFromObject n d m \<noteq> Inl RangeError \<Longrightarrow>
                 parseSqlSchemaFromObject (Suc n) d m = parseSqlSchemaFromObject n d m"
    and t: "map_of fs ''type'' = Some (JStr ''object'')"
    and ok: "parseSqlSchemaFromObject (Suc n) (Some (JObj fs)) m \<noteq> Inl RangeError"
  shows "parseSqlSchemaFromObject (Suc (Suc n)) (Some (JObj fs)) m =
         parseSqlSchemaFromObject (Suc n) (Some (JObj fs)) m"
proof -
  define F where "F k = (\<lambda>(key, child). fieldText (validatedFieldName key) '': ''
                          (parseSqlSchemaFromObject k (Some child) None))" for k
  have unfold: "parseSqlSchemaFromObject (Suc k) (Some (JObj fs)) m =
      (case forEach (F k) (forInEntries (map_of fs ''properties'')) of
         Inl err \<Rightarrow> Inl err
       | Inr arr \<Rightarrow> Inr (''struct<'' @ join '', '' arr @ ''>''))" for k
    unfolding F_def by (rule parse_object [OF t])
  have fields: "forEach (F n) (forInEntries (map_of fs ''properties'')) \<noteq> Inl RangeError"
    using ok unfolding unfold by auto
  have step: "F (Suc n) x = F n x" if "F n x \<noteq> Inl RangeError" for x
  proof (cases x)
    case (Pair key child)
    from that Pair
    have "parseSqlSchemaFromObject n (Some child) None \<noteq> Inl RangeError"
      by (auto simp: F_def dest: fieldText_not_RangeError)
    then have "parseSqlSchemaFromObject (Suc n) (Some child) None =
               parseSqlSchemaFromObject n (Some child) None"
      by (rule IH)
    with Pair show ?thesis by (simp add: F_def)
  qed
  have "forEach (F (Suc n)) (forInEntries (map_of fs ''properties'')) =
        forEach (F n) (forInEntries (map_of fs ''properties''))"
    using refl fields step by (rule forEach_agree)
  then show ?thesis
    by (simp only: unfold)
qed

lemma typed_without_children:
  assumes "map_of fs ''type'' = Some (JStr t)"
    and "t \<noteq> ''array''" and "t \<noteq> ''object''" and "t \<noteq> ''map''"
  shows "parseSqlSchemaFromObject (Suc n) (Some (JObj fs)) m =
         parseSqlSchemaFromObject (Suc n') (Some (JObj fs)) m"
  using assms by (simp add: parse_step)

lemma array_deeper:
  assumes IH: "\<And>d m. parseSqlSchemaFromObject n d m \<noteq> Inl RangeError \<Longrightarrow>
                 parseSqlSchemaFromObject (Suc n) d m = parseSqlSchemaFromObject n d m"
    and t: "map_of fs ''type'' = Some (JStr ''array'')"
    and ok: "parseSqlSchemaFromObject (Suc n) (Some (JObj fs)) m \<noteq> Inl RangeError"
  shows "parseSqlSchemaFromObject (Suc (Suc n)) (Some (JObj fs)) m =
         parseSqlSchemaFromObject (Suc n) (Some (JObj fs)) m"
proof -
  from ok have "parseSqlSchemaFromObject n (map_of fs ''items'') None \<noteq> Inl RangeError"
    unfolding parse_array [OF t] by auto
  then have "parseSqlSchemaFromObject (Suc n) (map_of fs ''items'') None =
             parseSqlSchemaFromObject n (map_of fs ''items'') None"
    by (rule IH)
  then show ?thesis
    by (simp only: parse_array [OF t])
qed

lemma map_deeper:
  assumes IH: "\<And>d m. parseSqlSchemaFromObject n d m \<noteq> Inl RangeError \<Longrightarrow>
                 parseSqlSchemaFromObject (Suc n) d m = parseSqlSchemaFromObject n d m"
    and t: "map_of fs ''type'' = Some (JStr ''map'')"
    and ok: "parseSqlSchemaFromObject (Suc n) (Some (JObj fs)) m \<noteq> Inl RangeError"
  shows "parseSqlSchemaFromObject (Suc (Suc n)) (Some (JObj fs)) m =
         parseSqlSchemaFromObject (Suc n) (Some (JObj fs)) m"
proof (cases "getProp (map_of fs ''properties'') ''key''")
  case (Inl e)
  with t show ?thesis
    by (simp add: parse_step)
next
  case (Inr k)
  note key = this
  have unfold: "parseSqlSchemaFromObject (Suc j) (Some (JObj fs)) m =
      (case parseSqlSchemaFromObject j k None of
         Inl err \<Rightarrow> Inl err
       | Inr ks \<Rightarrow>
           (case getProp (map_of fs ''properties'') ''value'' of
              Inl err \<Rightarrow> Inl err
            | Inr v \<Rightarrow>
                (case parseSqlSchemaFromObject j v None of
                   Inl err \<Rightarrow> Inl err
                 | Inr vs \<Rightarrow> Inr (''map<'' @ ks @ '', '' @ vs @ ''>''))))" for j
    using t key by (simp add: parse_step)
  from ok have k_ok: "parseSqlSchemaFromObject n k None \<noteq> Inl RangeError"
    unfolding unfold by auto
  then have k_eq: "parseSqlSchemaFromObject (Suc n) k None = parseSqlSchemaFromObject n k None"
    by (rule IH)
  show ?thesis
  proof (cases "parseSqlSchemaFromObject n k None")
    case (Inl e)
    with k_eq show ?thesis
      by (simp add: unfold)
  next
    case (Inr ks)
    note ks = this
    show ?thesis
    proof (cases "getProp (map_of fs ''properties'') ''value''")
      case (Inl e)
      with k_eq ks show ?thesis
        by (simp add: unfold)
    next
      case (Inr v)
      with ok ks have "parseSqlSchemaFromObject n v None \<noteq> Inl RangeError"
        unfolding unfold by auto
      then have "parseSqlSchemaFromObject (Suc n) v None = parseSqlSchemaFromObject n v None"
        by (rule IH)
      with k_eq ks Inr show ?thesis
        by (simp add: unfold)
    qed
  qed
qed

lemma parse_deeper:
  "parseSqlSchemaFromObject n d m \<noteq> Inl RangeError \<Longrightarrow>
   parseSqlSchemaFromObject (Suc n) d m = parseSqlSchemaFromObject n d m"
proof (induction n arbitrary: d m)
  case 0
  then show ?case by simp
next
  case (Suc n)
  note IH = Suc.IH
  note ok = Suc.prems
  have untyped: "parseSqlSchemaFromObject (Suc (Suc n)) (Some v) m =
                 parseSqlSchemaFromObject (Suc n) (Some v) m"
    if "getProp (Some v) ''type'' = Inr None" "getProp (Some v) ''properties'' = Inr None"
      "d = Some v" for v
  proof -
    have none: "stringValue None = None"
      by simp
    from IH that(1) none that(2) ok [unfolded that(3)] show ?thesis
      by (rule grouping_deeper)
  qed
  show ?case
  proof (cases d)
    case None
    show ?thesis
      unfolding None by (simp add: parse_step)
  next
    case (Some v)
    show ?thesis
    proof (cases v)
      case JNull
      show ?thesis
        unfolding Some JNull by (simp add: parse_step)
    next
      case (JBool b)
      show ?thesis
        unfolding Some by (rule untyped) (simp_all add: JBool Some)
    next
      case (JNum i e)
      show ?thesis
        unfolding Some by (rule untyped) (simp_all add: JNum Some)
    next
      case (JStr s)
      show ?thesis
        unfolding Some by (rule untyped) (simp_all add: JStr Some)
    next
      case (JArr xs)
      show ?thesis
        unfolding Some by (rule untyped) (simp_all add: JArr Some)
    next
      case (JObj fs)
      note d = Some JObj
      show ?thesis
      proof (cases "stringValue (map_of fs ''type'')")
        case None
        note no_type = this
        show ?thesis
        proof (cases "map_of fs ''properties''")
          case None
          have g: "getProp d ''type'' = Inr (map_of fs ''type'')"
            "getProp d ''properties'' = Inr None"
            using None by (simp_all add: d)
          from IH g(1) no_type g(2) ok show ?thesis
            by (rule grouping_deeper)
        next
          case (Some props)
          from ok have "parseSqlSchemaFromObject n (Some props) m \<noteq> Inl RangeError"
            unfolding d parse_unwrap [OF no_type Some] .
          then have "parseSqlSchemaFromObject (Suc n) (Some props) m =
                     parseSqlSchemaFromObject n (Some props) m"
            by (rule IH)
          then show ?thesis
            unfolding d by (simp only: parse_unwrap [OF no_type Some])
        qed
      next
        case (Some t)
        then have t: "map_of fs ''type'' = Some (JStr t)"
          by (cases "map_of fs ''type''" rule: stringValue.cases) auto
        consider "t = ''array''" | "t = ''object''" | "t = ''map''"
          | "t \<noteq> ''array''" "t \<noteq> ''object''" "t \<noteq> ''map''"
          by blast
        then show ?thesis
        proof cases
          case 1
          from IH t [unfolded 1] ok [unfolded d] show ?thesis
            unfolding d by (rule array_deeper)
        next
          case 2
          from IH t [unfolded 2] ok [unfolded d] show ?thesis
            unfolding d by (rule object_deeper)
        next
          case 3
          from IH t [unfolded 3] ok [unfolded d] show ?thesis
            unfolding d by (rule map_deeper)
        next
          case 4
          with t show ?thesis
            unfolding d by (rule typed_without_children)
        qed
      qed
    qed
  qed
qed

lemma parse_more_depth:
  "parseSqlSchemaFromObject n d m \<noteq> Inl RangeError \<Longrightarrow>
   parseSqlSchemaFromObject (n + k) d m = parseSqlSchemaFromObject n d m"
proof (induction k)
  case 0
  show ?case by simp
next
  case (Suc k)
  then have "parseSqlSchemaFromObject (n + k) d m \<noteq> Inl RangeError"
    by simp
  then have "parseSqlSchemaFromObject (Suc (n + k)) d m = parseSqlSchemaFromObject (n + k) d m"
    by (rule parse_deeper)
  with Suc show ?case
    by simp
qed

subsection \<open>Decimal numbers\<close>






section \<open>Properties of the type mapper and the assembler\<close>






text \<open>
  Claim C3, as amended. The source has no check of the root's type: for a root that is a
  bare primitive the assembler returns the primitive's SQL type, for a root array
  \<open>array<...>\<close> around the type of its items, and for a root map \<open>map<..., ...>\<close> around the
  types of its key and value, whenever those compile.
\<close>

theorem bare_root_compiles:
  "(map_of fs ''type'' = Some (JStr t) \<and> map_of primitiveTable t = Some s \<longrightarrow>
      readSqlSchemaFromJson (Suc n) (JObj fs) m = Inr s)
   \<and> (map_of fs ''type'' = Some (JStr ''array'')
        \<and> parseSqlSchemaFromObject n (map_of fs ''items'') None = Inr s \<longrightarrow>
      readSqlSchemaFromJson (Suc n) (JObj fs) m = Inr (''array<'' @ s @ ''>''))
   \<and> (map_of fs ''type'' = Some (JStr ''map'') \<and> map_of fs ''properties'' = Some (JObj ps)
        \<and> parseSqlSchemaFromObject n (map_of ps ''key'') None = Inr ks
        \<and> parseSqlSchemaFromObject n (map_of ps ''value'') None = Inr vs \<longrightarrow>
      readSqlSchemaFromJson (Suc n) (JObj fs) m = Inr (''map<'' @ ks @ '', '' @ vs @ ''>''))"
proof (intro conjI impI)
  assume a: "map_of fs ''type'' = Some (JStr t) \<and> map_of primitiveTable t = Some s"
  then have "parseSqlSchemaFromObject (Suc n) (Some (JObj fs)) m = Inr s"
    by (intro parse_primitive [where t = t]) simp_all
  moreover from a have "\<not> startsWith s ''struct<''"
    by (intro primitive_not_struct [where t = t]) simp
  ultimately show "readSqlSchemaFromJson (Suc n) (JObj fs) m = Inr s"
    by (rule read_other)
next
  assume a: "map_of fs ''type'' = Some (JStr ''array'')
        \<and> parseSqlSchemaFromObject n (map_of fs ''items'') None = Inr s"
  then have "parseSqlSchemaFromObject (Suc n) (Some (JObj fs)) m = Inr (''array<'' @ s @ ''>'')"
    by (simp add: parse_array)
  moreover have "\<not> startsWith (''array<'' @ s @ ''>'') ''struct<''"
    by (simp add: startsWith_def)
  ultimately show "readSqlSchemaFromJson (Suc n) (JObj fs) m = Inr (''array<'' @ s @ ''>'')"
    by (rule read_other)
next
  assume a: "map_of fs ''type'' = Some (JStr ''map'') \<and> map_of fs ''properties'' = Some (JObj ps)
        \<and> parseSqlSchemaFromObject n (map_of ps ''key'') None = Inr ks
        \<and> parseSqlSchemaFromObject n (map_of ps ''value'') None = Inr vs"
  then have "parseSqlSchemaFromObject (Suc n) (Some (JObj fs)) m =
             Inr (''map<'' @ ks @ '', '' @ vs @ ''>'')"
    by (simp add: parse_map [where ps = ps])
  moreover have "\<not> startsWith (''map<'' @ ks @ '', '' @ vs @ ''>'') ''struct<''"
    by (simp add: startsWith_def)
  ultimately show "readSqlSchemaFromJson (Suc n) (JObj fs) m =
                   Inr (''map<'' @ ks @ '', '' @ vs @ ''>'')"
    by (rule read_other)
qed

theorem bare_root_compiles_witness:
  "map_of [(''type'', JStr ''long'')] ''type'' = Some (JStr ''long'')
   \<and> map_of primitiveTable ''long'' = Some ''bigint''
   \<and> readSqlSchemaFromJson (Suc 0) (JObj [(''type'', JStr ''long'')]) None = Inr ''bigint''"
proof -
  have h1: "map_of [(''type'', JStr ''long'')] ''type'' = Some (JStr ''long'')"
    by simp
  have h2: "map_of primitiveTable ''long'' = Some ''bigint''"
    by code_simp
  from bare_root_compiles
      [where fs = "[(''type'', JStr ''long'')]" and t = "''long''" and s = "''bigint''"
         and n = 0 and m = None]
    h1 h2
  show ?thesis
    by blast
qed

text \<open>
  Claim C3, as stated, fails: the root \<^verbatim>\<open>{"type": "string"}\<close> is a bare primitive and
  the assembler returns the string \<open>string\<close> for it.
\<close>

theorem bare_primitive_root_counterexample:
  "readSqlSchemaFromJson 1 (typeNode ''string'') None = Inr ''string''"
  by code_simp

text \<open>
  Claim C4. Whenever the type mapper returns \<open>struct<body>\<close> for the root, the assembler
  returns \<open>body\<close>. For the root with the fields \<open>id\<close> of type \<open>string\<close> and \<open>ts\<close> of type
  \<open>timestamp\<close>, in this order, the type mapper returns \<open>struct<id string, ts bigint>\<close> and
  the assembler \<open>id string, ts bigint\<close>.
\<close>

theorem root_struct_is_unwrapped:
  "(parseSqlSchemaFromObject n (Some d) m = Inr (''struct<'' @ body @ ''>'') \<longrightarrow>
      readSqlSchemaFromJson n d m = Inr body)
   \<and> parseSqlSchemaFromObject (Suc (Suc k)) (Some doc_id_ts) None =
       Inr ''struct<id string, ts bigint>''
   \<and> readSqlSchemaFromJson (Suc (Suc k)) doc_id_ts None = Inr ''id string, ts bigint''"
proof (intro conjI impI)
  assume "parseSqlSchemaFromObject n (Some d) m = Inr (''struct<'' @ body @ ''>'')"
  then show "readSqlSchemaFromJson n d m = Inr body"
    by (rule read_struct)
next
  show "parseSqlSchemaFromObject (Suc (Suc k)) (Some doc_id_ts) None =
       Inr ''struct<id string, ts bigint>''"
    by code_simp
next
  show "readSqlSchemaFromJson (Suc (Suc k)) doc_id_ts None = Inr ''id string, ts bigint''"
    by code_simp
qed

theorem root_struct_is_unwrapped_witness:
  "parseSqlSchemaFromObject 2 (Some doc_id_ts) None =
     Inr (''struct<'' @ ''id string, ts bigint'' @ ''>'')
   \<and> readSqlSchemaFromJson 2 doc_id_ts None = Inr ''id string, ts bigint''"
proof -
  have h: "parseSqlSchemaFromObject 2 (Some doc_id_ts) None =
           Inr (''struct<'' @ ''id string, ts bigint'' @ ''>'')"
    by code_simp
  from root_struct_is_unwrapped
      [where n = 2 and d = doc_id_ts and m = None and body = "''id string, ts bigint''"
         and k = 0] h
  show ?thesis
    by blast
qed

text \<open>
  Claim C5. An explicit object (type \<open>object\<close> with \<open>properties\<close>) is rendered as
  \<open>struct<\<close>, its fields as \<open>name: type\<close> joined by a comma and a space, and \<open>>\<close>; an implicit
  grouping (no type keyword, no \<open>properties\<close>) is rendered the same way with its fields as
  \<open>name type\<close>. The document with the explicit object \<open>other\<close> of \<open>col1\<close> (integer) and
  \<open>col2\<close> (float) compiles to \<open>other struct<col1: int, col2: float>\<close>.
\<close>

theorem struct_rendering_paths:
  "(map_of fs ''type'' = Some (JStr ''object'') \<and> map_of fs ''properties'' = Some (JObj ps)
      \<and> list_all2 (\<lambda>(key, child) t. parseSqlSchemaFromObject n (Some child) None = Inr t) ps ts
      \<longrightarrow>
      parseSqlSchemaFromObject (Suc n) (Some (JObj fs)) m =
      Inr (structText '': '' (zip (map fst ps) ts)))
   \<and> (stringValue (map_of gs ''type'') = None \<and> map_of gs ''properties'' = None
      \<and> list_all2 (\<lambda>(key, child) t. parseSqlSchemaFromObject n (Some child) None = Inr t) gs us
      \<longrightarrow>
      parseSqlSchemaFromObject (Suc n) (Some (JObj gs)) None =
      Inr (structText '' '' (zip (map fst gs) us)))
   \<and> readSqlSchemaFromJson (Suc (Suc (Suc k))) doc_other None =
       Inr ''other struct<col1: int, col2: float>''"
proof (intro conjI impI)
  assume "map_of fs ''type'' = Some (JStr ''object'') \<and> map_of fs ''properties'' = Some (JObj ps)
      \<and> list_all2 (\<lambda>(key, child) t. parseSqlSchemaFromObject n (Some child) None = Inr t) ps ts"
  then show "parseSqlSchemaFromObject (Suc n) (Some (JObj fs)) m =
      Inr (structText '': '' (zip (map fst ps) ts))"
    by (intro explicit_object_colon) simp_all
next
  assume "stringValue (map_of gs ''type'') = None \<and> map_of gs ''properties'' = None
      \<and> list_all2 (\<lambda>(key, child) t. parseSqlSchemaFromObject n (Some child) None = Inr t) gs us"
  then show "parseSqlSchemaFromObject (Suc n) (Some (JObj gs)) None =
      Inr (structText '' '' (zip (map fst gs) us))"
    by (intro implicit_grouping_space) simp_all
next
  show "readSqlSchemaFromJson (Suc (Suc (Suc k))) doc_other None =
       Inr ''other struct<col1: int, col2: float>''"
    by code_simp
qed

theorem struct_rendering_paths_witness:
  "parseSqlSchemaFromObject (Suc (Suc 0))
     (Some (JObj [(''type'', JStr ''object''),
                  (''properties'', JObj [(''col1'', typeNode ''integer'')])])) None =
     Inr ''struct<col1: int>''
   \<and> parseSqlSchemaFromObject (Suc (Suc 0)) (Some (JObj [(''col1'', typeNode ''integer'')])) None =
     Inr ''struct<col1 int>''"
proof -
  let ?ps = "[(''col1'', typeNode ''integer'')]"
  let ?fs = "[(''type'', JStr ''object''), (''properties'', JObj ?ps)]"
  have p: "parseSqlSchemaFromObject (Suc 0) (Some (typeNode ''integer'')) None = Inr ''int''"
    by code_simp
  have h1: "map_of ?fs ''type'' = Some (JStr ''object'')" "map_of ?fs ''properties'' = Some (JObj ?ps)"
    by simp_all
  have h2: "stringValue (map_of ?ps ''type'') = None" "map_of ?ps ''properties'' = None"
    by simp_all
  have h3: "list_all2 (\<lambda>(key, child) t. parseSqlSchemaFromObject (Suc 0) (Some child) None = Inr t)
              ?ps [''int'']"
    by (simp add: p)
  note inst = struct_rendering_paths
      [where fs = ?fs and ps = ?ps and n = "Suc 0" and ts = "[''int'']" and m = None and gs = ?ps
         and us = "[''int'']"]
  from inst h1 h3
  have a: "parseSqlSchemaFromObject (Suc (Suc 0)) (Some (JObj ?fs)) None =
           Inr (structText '': '' (zip (map fst ?ps) [''int'']))"
    by blast
  from inst h2 h3
  have b: "parseSqlSchemaFromObject (Suc (Suc 0)) (Some (JObj ?ps)) None =
           Inr (structText '' '' (zip (map fst ?ps) [''int'']))"
    by blast
  have t1: "structText '': '' (zip (map fst ?ps) [''int'']) = ''struct<col1: int>''"
    by code_simp
  have t2: "structText '' '' (zip (map fst ?ps) [''int'']) = ''struct<col1 int>''"
    by code_simp
  from a b show ?thesis
    unfolding t1 t2 by blast
qed

text \<open>
  Claim C6. A node whose type keyword is \<open>null\<close> raises \<open>UnsupportedType\<close>, and a node whose
  type keyword is neither \<open>null\<close> nor one of the thirteen recognized keywords raises
  \<open>UnknownType\<close>. The error of the first failing field of a grouping is the result of the
  whole compilation: nothing of the fields before it is returned. The documents
  \<^verbatim>\<open>{"x": {"type": "null"}}\<close> and \<^verbatim>\<open>{"x": {"type": "bogus"}}\<close> raise \<open>UnsupportedType\<close> and
  \<open>UnknownType\<close>.
\<close>

theorem unsupported_and_unknown_types:
  "(map_of fs ''type'' = Some (JStr ''null'') \<longrightarrow>
      parseSqlSchemaFromObject (Suc n) (Some (JObj fs)) m = Inl (UnsupportedType ''null''))
   \<and> (map_of fs ''type'' = Some (JStr t) \<and> t \<noteq> ''null'' \<and> t \<notin> set recognizedKeywords \<longrightarrow>
      parseSqlSchemaFromObject (Suc n) (Some (JObj fs)) m = Inl (UnknownType t))
   \<and> (stringValue (map_of gs ''type'') = None \<and> map_of gs ''properties'' = None
        \<and> gs = before @ (key, child) # after
        \<and> list_all (\<lambda>(key', child'). \<exists>s. parseSqlSchemaFromObject n (Some child') None = Inr s)
             before
        \<and> parseSqlSchemaFromObject n (Some child) None = Inl err \<longrightarrow>
      readSqlSchemaFromJson (Suc n) (JObj gs) None = Inl err)
   \<and> readSqlSchemaFromJson (Suc (Suc k)) doc_null None = Inl (UnsupportedType ''null'')
   \<and> readSqlSchemaFromJson (Suc (Suc k)) doc_bogus None = Inl (UnknownType ''bogus'')"
proof (intro conjI impI)
  assume "map_of fs ''type'' = Some (JStr ''null'')"
  then show "parseSqlSchemaFromObject (Suc n) (Some (JObj fs)) m = Inl (UnsupportedType ''null'')"
    by (rule parse_null)
next
  assume "map_of fs ''type'' = Some (JStr t) \<and> t \<noteq> ''null'' \<and> t \<notin> set recognizedKeywords"
  then show "parseSqlSchemaFromObject (Suc n) (Some (JObj fs)) m = Inl (UnknownType t)"
    by (intro parse_unknown) simp_all
next
  assume a: "stringValue (map_of gs ''type'') = None \<and> map_of gs ''properties'' = None
        \<and> gs = before @ (key, child) # after
        \<and> list_all (\<lambda>(key', child'). \<exists>s. parseSqlSchemaFromObject n (Some child') None = Inr s)
             before
        \<and> parseSqlSchemaFromObject n (Some child) None = Inl err"
  let ?f = "\<lambda>(key, child). fieldText (validatedFieldName key) '' ''
              (parseSqlSchemaFromObject n (Some child) None)"
  from a have g1: "stringValue (map_of gs ''type'') = None"
    and g2: "map_of gs ''properties'' = None"
    and g3: "gs = before @ (key, child) # after"
    by blast+
  from a have "\<forall>x \<in> set before. \<exists>s. ?f x = Inr s"
    by (auto simp: list_all_iff fieldText_def)
  moreover from a have "?f (key, child) = Inl err"
    by (simp add: fieldText_def)
  ultimately have "forEach ?f (before @ (key, child) # after) = Inl err"
    by (rule forEach_first_error)
  then have "forEach ?f gs = Inl err"
    by (simp only: g3)
  moreover have "parseSqlSchemaFromObject (Suc n) (Some (JObj gs)) None =
      (case forEach ?f gs of Inl err \<Rightarrow> Inl err
       | Inr arr \<Rightarrow> Inr (''struct<'' @ join '', '' arr @ ''>''))"
    by (simp add: parse_grouping [OF g1 g2])
  ultimately have "parseSqlSchemaFromObject (Suc n) (Some (JObj gs)) None = Inl err"
    by simp
  then show "readSqlSchemaFromJson (Suc n) (JObj gs) None = Inl err"
    by (rule read_error)
next
  show "readSqlSchemaFromJson (Suc (Suc k)) doc_null None = Inl (UnsupportedType ''null'')"
    by code_simp
next
  show "readSqlSchemaFromJson (Suc (Suc k)) doc_bogus None = Inl (UnknownType ''bogus'')"
    by code_simp
qed

theorem unsupported_and_unknown_types_witness:
  "parseSqlSchemaFromObject (Suc 0) (Some (JObj [(''type'', JStr ''null'')])) None =
     Inl (UnsupportedType ''null'')
   \<and> parseSqlSchemaFromObject (Suc 0) (Some (JObj [(''type'', JStr ''bogus'')])) None =
     Inl (UnknownType ''bogus'')
   \<and> readSqlSchemaFromJson (Suc 1)
       (JObj [(''id'', typeNode ''string''), (''x'', typeNode ''null''), (''y'', typeNode ''long'')])
       None = Inl (UnsupportedType ''null'')"
proof -
  let ?gs = "[(''id'', typeNode ''string''), (''x'', typeNode ''null''), (''y'', typeNode ''long'')]"
  have h1: "map_of [(''type'', JStr ''null'')] ''type'' = Some (JStr ''null'')"
    by simp
  have h2: "map_of [(''type'', JStr ''bogus'')] ''type'' = Some (JStr ''bogus'')
            \<and> ''bogus'' \<noteq> ''null'' \<and> ''bogus'' \<notin> set recognizedKeywords"
    by code_simp
  have h3: "stringValue (map_of ?gs ''type'') = None \<and> map_of ?gs ''properties'' = None
        \<and> ?gs = [(''id'', typeNode ''string'')] @ (''x'', typeNode ''null'') # [(''y'', typeNode ''long'')]
        \<and> list_all (\<lambda>(key', child'). \<exists>s. parseSqlSchemaFromObject 1 (Some child') None = Inr s)
             [(''id'', typeNode ''string'')]
        \<and> parseSqlSchemaFromObject 1 (Some (typeNode ''null'')) None = Inl (UnsupportedType ''null'')"
  proof (intro conjI)
    have "parseSqlSchemaFromObject 1 (Some (typeNode ''string'')) None = Inr ''string''"
      by code_simp
    then show "list_all (\<lambda>(key', child'). \<exists>s. parseSqlSchemaFromObject 1 (Some child') None = Inr s)
             [(''id'', typeNode ''string'')]"
      by simp
    show "parseSqlSchemaFromObject 1 (Some (typeNode ''null'')) None = Inl (UnsupportedType ''null'')"
      by code_simp
  qed simp_all
  from unsupported_and_unknown_types
      [where fs = "[(''type'', JStr ''null'')]" and n = 0 and m = None] h1
  have a: "parseSqlSchemaFromObject (Suc 0) (Some (JObj [(''type'', JStr ''null'')])) None =
     Inl (UnsupportedType ''null'')"
    by blast
  from unsupported_and_unknown_types
      [where fs = "[(''type'', JStr ''bogus'')]" and t = "''bogus''" and n = 0 and m = None] h2
  have b: "parseSqlSchemaFromObject (Suc 0) (Some (JObj [(''type'', JStr ''bogus'')])) None =
     Inl (UnknownType ''bogus'')"
    by blast
  from unsupported_and_unknown_types
      [where gs = ?gs and before = "[(''id'', typeNode ''string'')]" and key = "''x''"
         and child = "typeNode ''null''" and after = "[(''y'', typeNode ''long'')]" and n = 1
         and err = "UnsupportedType ''null''"] h3
  have c: "readSqlSchemaFromJson (Suc 1) (JObj ?gs) None = Inl (UnsupportedType ''null'')"
    by blast
  from a b c show ?thesis
    by blast
qed




end
